theory Spec2Isabelle
  imports Complex_Main
begin

section \<open>The SEIR simulation of \<open>model.py\<close>\<close>

text \<open>
  The module integrates a four-compartment epidemic model over a grid of whole days and
  turns the Recovered trajectory into a cumulative death count. Python floats are read as
  real numbers, Python integers as \<open>int\<close>, numpy arrays as lists. Where the source leaves
  real arithmetic (a division by a zero population, a float that does not fit the 64-bit
  integer cell it is stored in) the embedding returns a value that says so.
\<close>

subsection \<open>Errors and numeric conversions\<close>

datatype error =
    Value_error         \<comment> \<open>\<open>math.sqrt\<close> of a negative number; columns of unequal length\<close>
  | Index_error         \<comment> \<open>an array read past its end\<close>
  | Non_finite          \<comment> \<open>division by a zero population: IEEE inf/nan, not a real number\<close>
  | Cast_out_of_range   \<comment> \<open>a float stored in an int64 cell that cannot hold it\<close>
  | Overflow_error      \<comment> \<open>a date outside the calendar of \<open>datetime.date\<close>\<close>

type_synonym state = "real \<times> real \<times> real \<times> real"

text \<open>Conversion of a float to an integer drops the fraction (towards zero), as C does.\<close>

definition trunc :: "real \<Rightarrow> int" where
  "trunc v = (if 0 \<le> v then \<lfloor>v\<rfloor> else \<lceil>v\<rceil>)"

text \<open>
  \<open>D[i] = v\<close> on an array of dtype int64 converts the float \<open>v\<close> on the way in. Outside
  the range of the cell numpy leaves the stored value unspecified; the embedding stops there.
\<close>

definition int64_store :: "real \<Rightarrow> error + int" where
  "int64_store v =
     (let k = trunc v
      in if - (2 ^ 63) \<le> k \<and> k < 2 ^ 63 then Inr k else Inl Cast_out_of_range)"

text \<open>Python's \<open>round\<close> on a float: to the nearest integer, a tie to the even neighbour.\<close>

definition py_round :: "real \<Rightarrow> int" where
  "py_round v =
     (let f = \<lfloor>v\<rfloor>; r = v - of_int f
      in if r < 1 / 2 then f
         else if 1 / 2 < r then f + 1
         else if even f then f else f + 1)"

subsection \<open>The compartmental model (\<open>model\<close>, lines 15--30)\<close>

text \<open>
  \<open>N\<close> is the population handed in by the caller. With \<open>N = 0\<close> the two quotients have no
  real value (a \<open>ZeroDivisionError\<close> on Python numbers, inf/nan on numpy scalars), which is
  the result \<open>None\<close>.
\<close>

definition model ::
  "state \<Rightarrow> real \<Rightarrow> int \<Rightarrow> real \<Rightarrow> int \<Rightarrow> real \<Rightarrow> real \<Rightarrow> real \<Rightarrow> state option" where
  "model Y x N beta0 days0 beta1 gamma sigma =
     (case Y of (S, E, I, R) \<Rightarrow>
        let beta = (if x < of_int days0 then beta0 else beta1)
        in if N = 0 then None
           else
             let dS = - beta * S * I / of_int N;
                 dE = beta * S * I / of_int N - sigma * E;
                 dI = sigma * E - gamma * I;
                 dR = gamma * I
             in Some (dS, dE, dI, dR))"

text \<open>The derivative as the specification writes it, for comparison with \<^const>\<open>model\<close>.\<close>

definition spec_beta :: "real \<Rightarrow> int \<Rightarrow> real \<Rightarrow> real \<Rightarrow> real" where
  "spec_beta t daysToSwitch beta0 beta1 =
     (if t < of_int daysToSwitch then beta0 else beta1)"

definition spec_derivative ::
  "real \<Rightarrow> real \<Rightarrow> real \<Rightarrow> real \<Rightarrow> real \<Rightarrow> real \<Rightarrow> real \<Rightarrow> real \<Rightarrow> state" where
  "spec_derivative beta sigma gamma N S E I R =
     (- beta * S * I / N,
      beta * S * I / N - sigma * E,
      sigma * E - gamma * I,
      gamma * I)"

subsection \<open>The integrator (\<open>solve\<close>, lines 33--40)\<close>

text \<open>
  \<open>scipy.integrate.odeint\<close> is a library outside the repository. Its numerical method
  is a parameter of the embedding: an \<open>integrator\<close> maps a right-hand side, an initial state
  and a time to the state it reports at that time. What is embedded of \<open>odeint\<close> is its
  interface: one row per requested time point, in order.
\<close>

type_synonym rhs = "state \<Rightarrow> real \<Rightarrow> state option"
type_synonym integrator = "rhs \<Rightarrow> state \<Rightarrow> real \<Rightarrow> state"

definition odeint :: "integrator \<Rightarrow> rhs \<Rightarrow> state \<Rightarrow> real list \<Rightarrow> state list" where
  "odeint ig func y0 t = map (ig func y0) t"

definition solve ::
  "integrator \<Rightarrow> (state \<Rightarrow> real \<Rightarrow> int \<Rightarrow> real \<Rightarrow> int \<Rightarrow> real \<Rightarrow> real \<Rightarrow> real \<Rightarrow> state option)
     \<Rightarrow> int \<Rightarrow> int \<Rightarrow> real \<Rightarrow> int \<Rightarrow> real \<Rightarrow> real \<Rightarrow> real \<Rightarrow> nat
     \<Rightarrow> nat list \<times> real list \<times> real list \<times> real list \<times> real list" where
  "solve ig func population E0 beta0 days0 beta1 gamma sigma daysTotal =
     (let X = [0 ..< daysTotal];
          N0 = (of_int (population - E0), of_int E0, 0, 0);
          y_data_var =
            odeint ig (\<lambda>Y x. func Y x population beta0 days0 beta1 gamma sigma) N0 (map of_nat X);
          S = map (\<lambda>(s, e, i, r). s) y_data_var;
          E = map (\<lambda>(s, e, i, r). e) y_data_var;
          I = map (\<lambda>(s, e, i, r). i) y_data_var;
          R = map (\<lambda>(s, e, i, r). r) y_data_var
      in (X, S, E, I, R))"

subsection \<open>The growth rate (\<open>run_SEIR\<close>, lines 98--99)\<close>

text \<open>\<open>math.sqrt\<close> raises \<open>ValueError\<close> on a negative argument.\<close>

definition s1 :: "real \<Rightarrow> real \<Rightarrow> real \<Rightarrow> error + real" where
  "s1 sigma gamma r0 =
     (let radicand = (sigma + gamma) ^ 2 + 4 * sigma * gamma * (r0 - 1)
      in if radicand < 0 then Inl Value_error
         else Inr (0.5 * (- (sigma + gamma) + sqrt radicand)))"

subsection \<open>The delay transform (\<open>shared.delay\<close>)\<close>

text \<open>
  Modelled from the spec: the module \<open>shared\<close> with its function \<open>delay\<close> is not among
  the sources. The specification gives \<open>series'[t] = series[t - shiftDays]\<close> where
  \<open>t - shiftDays >= 0\<close> and \<open>0\<close> before, linear interpolation between the two
  bracketing samples for a fractional shift, and an output as long as the input. For a
  shift that is not negative every sample read lies inside the series. The specification
  does not say what a negative shift reads past the last index; \<open>sample_at\<close> reads \<open>0\<close>
  there.
\<close>

definition sample_at :: "real list \<Rightarrow> nat \<Rightarrow> real" where
  "sample_at series k = (if k < length series then series ! k else 0)"

definition interpolate :: "real list \<Rightarrow> real \<Rightarrow> real" where
  "interpolate series p =
     (let k = nat \<lfloor>p\<rfloor>; w = p - of_int \<lfloor>p\<rfloor>
      in if w = 0 then sample_at series k
         else (1 - w) * sample_at series k + w * sample_at series (k + 1))"

definition delay :: "real list \<Rightarrow> real \<Rightarrow> real list" where
  "delay series shiftDays =
     map (\<lambda>t. if 0 \<le> of_nat t - shiftDays then interpolate series (of_nat t - shiftDays) else 0)
         [0 ..< length series]"

subsection \<open>The death estimate (\<open>run_SEIR\<close>, lines 120--127)\<close>

text \<open>
  \<open>D = np.arange(daysTotal)\<close> allocates the result as an array of 64-bit integers; the loop
  overwrites cell \<open>i\<close> in iteration \<open>i\<close> and reads it back into \<open>DPrev\<close>. The embedding
  walks the indices of \<open>enumerate(X)\<close> and returns the stored cells in order.
\<close>

fun death_loop ::
  "real \<Rightarrow> real \<Rightarrow> int \<Rightarrow> real list \<Rightarrow> real list \<Rightarrow> nat list \<Rightarrow> real \<Rightarrow> int
     \<Rightarrow> error + int list" where
  "death_loop fatA fatB intensive_units U R [] RPrev DPrev = Inr []"
| "death_loop fatA fatB intensive_units U R (i # rest) RPrev DPrev =
     (if length U \<le> i \<or> length R \<le> i then Inl Index_error
      else
        let IFR = (if U ! i \<le> of_int intensive_units then fatA else fatB)
        in case int64_store (of_int DPrev + IFR * (R ! i - RPrev)) of
             Inl e \<Rightarrow> Inl e
           | Inr d \<Rightarrow>
               (case death_loop fatA fatB intensive_units U R rest (R ! i) d of
                  Inl e \<Rightarrow> Inl e
                | Inr ds \<Rightarrow> Inr (d # ds)))"

definition estimate_deaths ::
  "real \<Rightarrow> real \<Rightarrow> int \<Rightarrow> real list \<Rightarrow> real list \<Rightarrow> nat list \<Rightarrow> error + int list" where
  "estimate_deaths fatA fatB intensive_units U R X =
     death_loop fatA fatB intensive_units U R [0 ..< length X] 0 0"

text \<open>
  The recurrence as the specification writes it, over the pairs \<open>(ICUdemand[t], R[t])\<close>, for
  comparison with \<^const>\<open>death_loop\<close>: here \<open>D\<close> is a series of reals.
\<close>

fun spec_death_recurrence ::
  "real \<Rightarrow> real \<Rightarrow> real \<Rightarrow> (real \<times> real) list \<Rightarrow> real \<Rightarrow> real \<Rightarrow> real list" where
  "spec_death_recurrence fatalityRateLow fatalityRateHigh icuCapacity [] RPrev DPrev = []"
| "spec_death_recurrence fatalityRateLow fatalityRateHigh icuCapacity ((ICUdemand, R) # rest)
       RPrev DPrev =
     (let IFR = (if ICUdemand \<le> icuCapacity then fatalityRateLow else fatalityRateHigh);
          D = DPrev + IFR * (R - RPrev)
      in D # spec_death_recurrence fatalityRateLow fatalityRateHigh icuCapacity rest R D)"

subsection \<open>The output table (\<open>run_SEIR\<close>, lines 132--149)\<close>

datatype observable = susceptible | exposed | infectious | recovered | deaths

record plot_row =
  date :: int
  type :: observable
  count :: int

text \<open>
  \<open>DataFrame.melt\<close> with \<open>id_vars = ['date']\<close>: the value columns one after the other, each
  paired row by row with the date column.
\<close>

definition melt :: "int list \<Rightarrow> (observable \<times> int list) list \<Rightarrow> plot_row list" where
  "melt dates cols =
     concat (map (\<lambda>(name, vals).
                    map (\<lambda>(d, v). \<lparr>date = d, type = name, count = v\<rparr>) (zip dates vals))
                 cols)"

text \<open>
  A date is the day number \<open>date.toordinal()\<close> gives it: \<open>1\<close> for 0001-01-01 up to
  \<open>date_max\<close> for 9999-12-31. \<open>date + timedelta(days = x)\<close> raises \<open>OverflowError\<close> when
  the sum leaves this range.
\<close>

definition date_max :: int where "date_max = 3652059"

definition date_in_range :: "int \<Rightarrow> bool" where
  "date_in_range d = (1 \<le> d \<and> d \<le> date_max)"

text \<open>
  \<open>pd.DataFrame\<close> raises \<open>ValueError\<close> when its columns differ in length (line 140); the
  date column is computed next (line 141); \<open>applymap\<close> then rounds every float of the frame.
\<close>

definition line_plot_data ::
  "int \<Rightarrow> nat list \<Rightarrow> real list \<Rightarrow> real list \<Rightarrow> real list \<Rightarrow> real list \<Rightarrow> real list
     \<Rightarrow> error + plot_row list" where
  "line_plot_data date_of_first_infection X S E I R D =
     (if \<not> list_all (\<lambda>col. length col = length X) [S, E, I, R, D] then Inl Value_error
      else if \<not> list_all (\<lambda>x. date_in_range (date_of_first_infection + int x)) X
      then Inl Overflow_error
      else Inr (melt (map (\<lambda>x. date_of_first_infection + int x) X)
                  [(susceptible, map py_round S),
                   (exposed, map py_round E),
                   (infectious, map py_round I),
                   (recovered, map py_round R),
                   (deaths, map py_round D)]))"

subsection \<open>The run (\<open>run_SEIR\<close>, lines 43--149)\<close>

definition daysTotal :: nat where "daysTotal = 365"
definition E0 :: int where "E0 = 1"
definition r0 :: real where "r0 = 3.0"
definition r1 :: real where "r1 = 1.1"

definition days_presymptomatic :: real where "days_presymptomatic = 2.5"
definition days_to_incubation :: real where "days_to_incubation = 5.2"
definition sigma :: real where
  "sigma = 1.0 / (days_to_incubation - days_presymptomatic)"
definition generation_time :: real where "generation_time = 4.6"
definition gamma :: real where
  "gamma = 1.0 / (2.0 * (generation_time - 1.0 / sigma))"

definition percent_asymptomatic :: real where "percent_asymptomatic = 0.35"
definition percent_cases_detected :: real where
  "percent_cases_detected = (1.0 - percent_asymptomatic) / 20.0"

definition timeInHospital :: real where "timeInHospital = 12"
definition timeInfected :: real where "timeInfected = 1.0 / gamma"

definition presymptomaticLag :: int where "presymptomaticLag = py_round days_presymptomatic"
definition communicationLag :: real where "communicationLag = 2"
definition testLag :: real where "testLag = 3"
definition symptomToHospitalLag :: real where "symptomToHospitalLag = 5"
definition hospitalToIcuLag :: real where "hospitalToIcuLag = 5"

definition infectionFatalityRateA :: real where "infectionFatalityRateA = 0.01"
definition infectionFatalityRateB :: real where
  "infectionFatalityRateB = infectionFatalityRateA * 3.0"
definition icuRate :: real where "icuRate = infectionFatalityRateA * 2"

definition beta0 :: real where "beta0 = r0 * gamma"
definition beta1 :: real where "beta1 = r1 * gamma"

text \<open>
  The run in the order of the source. Line 107 divides by \<open>population\<close>; with a zero
  population the source goes on with inf/nan, and the embedding ends with \<open>Non_finite\<close>.
  \<open>F\<close> and \<open>P\<close> are computed and not used in the table.
\<close>

definition run_SEIR ::
  "integrator \<Rightarrow> int \<Rightarrow> int \<Rightarrow> int \<Rightarrow> int \<Rightarrow> error + plot_row list" where
  "run_SEIR ig population intensive_units date_of_first_infection date_of_lockdown =
     (let days_before_lockdown = date_of_lockdown - date_of_first_infection
      in case s1 sigma gamma r0 of
           Inl e \<Rightarrow> Inl e
         | Inr growth \<Rightarrow>
             (case solve ig model population E0 beta0 days_before_lockdown beta1 gamma sigma
                     daysTotal of
                (X, S, E, I, R) \<Rightarrow>
                  if population = 0 then Inl Non_finite
                  else
                    let F = map (\<lambda>v. v * percent_cases_detected) I;
                        U = map (\<lambda>v. v * icuRate * timeInHospital / timeInfected) I;
                        P = map (\<lambda>v. v / of_int population * 1000000) I;
                        F = delay F (days_presymptomatic + symptomToHospitalLag + testLag
                                      + communicationLag);
                        U = delay U (days_presymptomatic + symptomToHospitalLag
                                      + hospitalToIcuLag);
                        U = delay U (of_int (py_round
                                      ((timeInHospital / timeInfected - 1) * timeInfected)))
                    in (case estimate_deaths infectionFatalityRateA infectionFatalityRateB
                               intensive_units U R X of
                          Inl e \<Rightarrow> Inl e
                        | Inr D \<Rightarrow>
                            let D = delay (map of_int D)
                                      (- timeInfected + days_presymptomatic
                                        + symptomToHospitalLag + timeInHospital
                                        + communicationLag)
                            in line_plot_data date_of_first_infection X S E I R D)))"

subsection \<open>Integrators\<close>

text \<open>
  An integrator that starts at time \<open>0\<close> and moves forward looks at the right-hand side at
  times \<open>x \<ge> 0\<close> only: two right-hand sides that agree there give it the same states.
  \<open>odeint\<close>, called with the grid \<open>0, 1, 2, \<dots>\<close>, is of this kind.
\<close>

definition forward_only :: "integrator \<Rightarrow> bool" where
  "forward_only ig =
     (\<forall>f g y0 t. 0 \<le> t \<and> (\<forall>Y x. 0 \<le> x \<longrightarrow> f Y x = g Y x) \<longrightarrow> ig f y0 t = ig g y0 t)"

text \<open>
  A concrete integrator for running \<^const>\<open>run_SEIR\<close> on given inputs: one step of the
  explicit midpoint rule from the initial state to the requested time. It stands where
  \<open>odeint\<close>'s method stands and is no part of the repository.
\<close>

definition advance :: "state \<Rightarrow> real \<Rightarrow> state \<Rightarrow> state" where
  "advance y h k =
     (case y of (S, E, I, R) \<Rightarrow>
        (case k of (dS, dE, dI, dR) \<Rightarrow> (S + h * dS, E + h * dE, I + h * dI, R + h * dR)))"

definition midpoint_step :: integrator where
  "midpoint_step func y0 t =
     (case func y0 0 of
        None \<Rightarrow> y0
      | Some k1 \<Rightarrow>
          (case func (advance y0 (t / 2) k1) (t / 2) of
             None \<Rightarrow> y0
           | Some k2 \<Rightarrow> advance y0 t k2))"

text \<open>
  The Recovered values the integrator reports in a run stay within \<open>2^58\<close> in size. With
  the module's fatality rates and its 365 days, every death count then fits its int64 cell.
\<close>

definition recovered_in_range :: "integrator \<Rightarrow> int \<Rightarrow> int \<Rightarrow> int \<Rightarrow> bool" where
  "recovered_in_range ig population date_of_first_infection date_of_lockdown =
     (case solve ig model population E0 beta0 (date_of_lockdown - date_of_first_infection)
             beta1 gamma sigma daysTotal of
        (X, S, E, I, R) \<Rightarrow> list_all (\<lambda>r. \<bar>r\<bar> \<le> 2 ^ 58) R)"

section \<open>Properties\<close>

subsection \<open>The derivative\<close>

text \<open>
  Claim C2. For a population that is not zero, the derivative \<open>model\<close> returns is the one
  the specification writes: \<open>beta\<close> is \<open>beta0\<close> before the switch day and \<open>beta1\<close> from it
  on, \<open>dS = -beta*S*I/N\<close>, \<open>dE = beta*S*I/N - sigma*E\<close>, \<open>dI = sigma*E - gamma*I\<close>,
  \<open>dR = gamma*I\<close>.
\<close>

theorem model_derivative:
  "N \<noteq> 0 \<Longrightarrow>
   model (S, E, I, R) t N b0 d b1 g s =
     Some (spec_derivative (spec_beta t d b0 b1) s g (of_int N) S E I R)"
  by (simp add: model_def spec_derivative_def spec_beta_def Let_def)

theorem model_derivative_witness:
  "(1000::int) \<noteq> 0 \<and>
   model (999, 1, 0, 0) 3 1000 (15/19) 10 (11/38) (5/19) (10/27) =
     Some (0, - (10/27), 10/27, 0)"
  using model_derivative [of 1000 999 1 0 0 3 "15/19" 10 "11/38" "5/19" "10/27"]
  by (simp add: spec_derivative_def spec_beta_def)

text \<open>The four components of the derivative cancel: the model moves people, it makes none.\<close>

lemma model_components_cancel:
  "model Y x N b0 d b1 g s = Some (dS, dE, dI, dR) \<Longrightarrow> dS + dE + dI + dR = 0"
  by (auto simp: model_def Let_def split: prod.splits if_splits)

subsection \<open>The delay transform\<close>

lemma map_nth_upt: "map (\<lambda>t. xs ! t) [0 ..< length xs] = xs"
  by (rule nth_equalityI) simp_all

text \<open>
  Claim C9. Delaying a series by zero days returns the series itself.
\<close>

theorem delay_zero: "delay series 0 = series"
proof -
  have "delay series 0 = map (\<lambda>t. series ! t) [0 ..< length series]"
    unfolding delay_def by (rule map_cong) (simp_all add: interpolate_def sample_at_def)
  then show ?thesis by (simp only: map_nth_upt)
qed

lemma length_delay: "length (delay series shiftDays) = length series"
  by (simp add: delay_def)

subsection \<open>The death estimate\<close>


text \<open>
  Claim C3. The specification's recurrence sets \<open>D[t] = DPrev + IFR[t] * (R[t] - RPrev)\<close>.
  The source stores that value in an int64 cell, which drops its fraction, and carries the
  stored integer on as \<open>DPrev\<close>: with \<open>R = [0, 150]\<close>, demand below a capacity of ten and
  the rate \<open>0.01\<close>, the source has \<open>D = [0, 1]\<close> where the recurrence has \<open>[0, 1.5]\<close>.
\<close>

theorem death_loop_drops_fraction:
  "estimate_deaths 0.01 0.03 10 [0, 0] [0, 150] [0, 1] = Inr [0, 1] \<and>
   spec_death_recurrence 0.01 0.03 10 [(0, 0), (0, 150)] 0 0 = [0, 3 / 2]"
  by (simp add: estimate_deaths_def int64_store_def trunc_def upt_rec)

text \<open>
  Claim C4. For \<open>R = [0, 5, 12, 20]\<close>, demand below capacity and the low rate \<open>0.01\<close> the
  specification expects \<open>D = [0, 0.05, 0.12, 0.20]\<close>; the source computes \<open>[0, 0, 0, 0]\<close>.
\<close>

theorem fatality_example_all_zero:
  "estimate_deaths 0.01 0.03 10 [0, 0, 0, 0] [0, 5, 12, 20] [0, 1, 2, 3] = Inr [0, 0, 0, 0] \<and>
   spec_death_recurrence 0.01 0.03 10 [(0, 0), (0, 5), (0, 12), (0, 20)] 0 0
     = [0, 5 / 100, 12 / 100, 20 / 100]"
  by (simp add: estimate_deaths_def int64_store_def trunc_def upt_rec)

lemma trunc_of_int_add: "0 \<le> x \<Longrightarrow> k \<le> trunc (of_int k + x)"
  unfolding trunc_def by (auto simp: le_floor_iff le_ceiling_iff)

lemma int64_store_mono:
  "int64_store (of_int k + x) = Inr d \<Longrightarrow> 0 \<le> x \<Longrightarrow> k \<le> d"
  using trunc_of_int_add [of x k]
  by (auto simp: int64_store_def Let_def split: if_splits)

lemma death_loop_sorted:
  "death_loop a b icu U R ixs RPrev DPrev = Inr D \<Longrightarrow> 0 \<le> a \<Longrightarrow> 0 \<le> b \<Longrightarrow>
   sorted (RPrev # map ((!) R) ixs) \<Longrightarrow> sorted (DPrev # D)"
proof (induction ixs arbitrary: RPrev DPrev D)
  case Nil
  then show ?case by simp
next
  case (Cons i rest)
  let ?IFR = "if U ! i \<le> of_int icu then a else b"
  from Cons.prems(1) obtain d ds where
    d: "int64_store (of_int DPrev + ?IFR * (R ! i - RPrev)) = Inr d" and
    ds: "death_loop a b icu U R rest (R ! i) d = Inr ds" and
    D: "D = d # ds"
    by (auto simp: Let_def split: if_splits sum.splits)
  from Cons.prems(4) have step: "RPrev \<le> R ! i" and tail: "sorted (R ! i # map ((!) R) rest)"
    by simp_all
  from Cons.prems(2,3) step have "0 \<le> ?IFR * (R ! i - RPrev)"
    by simp
  with d have "DPrev \<le> d"
    by (rule int64_store_mono)
  moreover from Cons.IH [OF ds Cons.prems(2,3) tail] have "sorted (d # ds)" .
  ultimately show ?case
    using D by auto
qed

lemma death_loop_length:
  "death_loop a b icu U R ixs RPrev DPrev = Inr D \<Longrightarrow> length D = length ixs"
  by (induction ixs arbitrary: RPrev DPrev D) (auto simp: Let_def split: if_splits sum.splits)

lemma death_loop_index:
  "death_loop a b icu U R ixs RPrev DPrev = Inr D \<Longrightarrow> i \<in> set ixs \<Longrightarrow> i < length R \<and> i < length U"
  by (induction ixs arbitrary: RPrev DPrev D) (auto simp: Let_def split: if_splits sum.splits)

text \<open>
  Claim C5. When the Recovered trajectory is non-decreasing and both fatality rates are
  non-negative, the death series the loop produces (before the final delay) is
  non-decreasing: \<open>D[t] \<ge> D[t-1]\<close> for every \<open>t\<close> from 1 to the last day.
\<close>

theorem deaths_nondecreasing:
  assumes run: "estimate_deaths fatA fatB icu U R X = Inr D"
    and rates: "0 \<le> fatA" "0 \<le> fatB"
    and R: "sorted R"
  shows "length D = length X \<and> (\<forall>t. 1 \<le> t \<and> t < length X \<longrightarrow> D ! (t - 1) \<le> D ! t)"
proof -
  from run have len: "length D = length X"
    by (simp add: estimate_deaths_def death_loop_length)
  have "sorted D"
  proof (cases "length X")
    case 0
    with len show ?thesis by simp
  next
    case (Suc n)
    then have ixs: "[0 ..< length X] = 0 # [1 ..< length X]"
      by (simp add: upt_conv_Cons)
    from run obtain d ds where
      ds: "death_loop fatA fatB icu U R [1 ..< length X] (R ! 0) d = Inr ds" and
      D: "D = d # ds"
      unfolding estimate_deaths_def ixs
      by (auto simp: Let_def split: if_splits sum.splits)
    have inside: "length X \<le> length R"
    proof -
      have "length X - 1 \<in> set [0 ..< length X]" using Suc by simp
      with run have "length X - 1 < length R"
        unfolding estimate_deaths_def by (blast dest: death_loop_index)
      then show ?thesis by simp
    qed
    have "sorted (map ((!) R) [0 ..< length X])"
      using R inside by (auto simp: sorted_iff_nth_mono)
    then have "sorted (R ! 0 # map ((!) R) [1 ..< length X])"
      unfolding ixs by simp
    from death_loop_sorted [OF ds rates this] show ?thesis
      using D by simp
  qed
  then have "\<forall>t. 1 \<le> t \<and> t < length X \<longrightarrow> D ! (t - 1) \<le> D ! t"
    using len by (auto intro: sorted_nth_mono)
  with len show ?thesis by simp
qed

theorem deaths_nondecreasing_witness:
  "estimate_deaths 0.01 0.03 10 [0, 20, 20] [0, 150, 400] [0, 1, 2] = Inr [0, 4, 11] \<and>
   (0::real) \<le> 0.01 \<and> (0::real) \<le> 0.03 \<and> sorted [0, 150, 400 :: real] \<and>
   length [0, 4, 11 :: int] = length [0, 1, 2 :: nat] \<and>
   [0, 4, 11 :: int] ! (2 - 1) \<le> [0, 4, 11] ! 2"
proof -
  have run: "estimate_deaths 0.01 0.03 10 [0, 20, 20] [0, 150, 400] [0, 1, 2] = Inr [0, 4, 11]"
    by (simp add: estimate_deaths_def int64_store_def trunc_def upt_rec)
  have srt: "sorted [0, 150, 400 :: real]"
    by simp
  from deaths_nondecreasing [OF run _ _ srt]
  have "length [0, 4, 11 :: int] = length [0, 1, 2 :: nat] \<and>
        (\<forall>t. 1 \<le> t \<and> t < length [0, 1, 2 :: nat] \<longrightarrow> [0, 4, 11 :: int] ! (t - 1) \<le> [0, 4, 11] ! t)"
    by simp
  then have "[0, 4, 11 :: int] ! (2 - 1) \<le> [0, 4, 11] ! 2"
    by simp
  with run srt show ?thesis
    by simp
qed

subsection \<open>The derived constants and the growth rate\<close>

lemma sigma_value: "sigma = 10 / 27"
  by (simp add: sigma_def days_to_incubation_def days_presymptomatic_def)

lemma gamma_value: "gamma = 5 / 19"
  by (simp add: gamma_def generation_time_def sigma_value)

lemma s1_growth:
  assumes "0 < sg" "0 < gm" "1 < r"
  shows "\<exists>s. s1 sg gm r = Inr s \<and> 0 < s"
proof -
  let ?rad = "(sg + gm)\<^sup>2 + 4 * sg * gm * (r - 1)"
  from assms have pos: "0 < 4 * sg * gm * (r - 1)"
    by simp
  then have "(sg + gm)\<^sup>2 < ?rad"
    by linarith
  then have "sg + gm < sqrt ?rad"
    by (rule real_less_rsqrt)
  moreover have "\<not> ?rad < 0"
    using pos zero_le_power2 [of "sg + gm"] by linarith
  ultimately have "s1 sg gm r = Inr (0.5 * (- (sg + gm) + sqrt ?rad))"
      and "0 < 0.5 * (- (sg + gm) + sqrt ?rad)"
    by (simp_all add: s1_def Let_def)
  then show ?thesis
    by blast
qed

lemma s1_decline:
  assumes "0 < sg" "0 < gm" "0 \<le> r" "r < 1"
  shows "\<exists>s. s1 sg gm r = Inr s \<and> s < 0"
proof -
  let ?rad = "(sg + gm)\<^sup>2 + 4 * sg * gm * (r - 1)"
  from assms have neg: "4 * sg * gm * (r - 1) < 0"
    by (simp add: mult_pos_neg)
  from assms have "sg * gm * (1 - r) \<le> sg * gm * 1"
    by (intro mult_left_mono) simp_all
  then have "?rad \<ge> (sg + gm)\<^sup>2 - 4 * sg * gm"
    by (simp add: algebra_simps)
  moreover have "(sg + gm)\<^sup>2 - 4 * sg * gm = (sg - gm)\<^sup>2"
    by (simp add: power2_eq_square algebra_simps)
  ultimately have nonneg: "\<not> ?rad < 0"
    using zero_le_power2 [of "sg - gm"] by linarith
  from neg have "?rad < (sg + gm)\<^sup>2"
    by linarith
  moreover from assms have "0 \<le> sg + gm"
    by simp
  ultimately have "sqrt ?rad < sg + gm"
    by (intro real_less_lsqrt)
  with nonneg have "s1 sg gm r = Inr (0.5 * (- (sg + gm) + sqrt ?rad))"
      and "0.5 * (- (sg + gm) + sqrt ?rad) < 0"
    by (simp_all add: s1_def Let_def)
  then show ?thesis
    by blast
qed

lemma sigma_gamma_positive: "0 < sigma" "0 < gamma"
  by (simp_all add: sigma_value gamma_value)

text \<open>
  Claim C8. With the module's \<open>sigma\<close> and \<open>gamma\<close>, the growth rate \<open>s1\<close> is strictly
  positive for \<open>r0 = 3.0\<close> and strictly negative for \<open>r0 = 0.5\<close>.
\<close>

theorem growth_rate_sign:
  "(\<exists>s. s1 sigma gamma 3.0 = Inr s \<and> 0 < s) \<and> (\<exists>s. s1 sigma gamma 0.5 = Inr s \<and> s < 0)"
proof
  show "\<exists>s. s1 sigma gamma 3.0 = Inr s \<and> 0 < s"
    by (rule s1_growth [OF sigma_gamma_positive]) simp
  show "\<exists>s. s1 sigma gamma 0.5 = Inr s \<and> s < 0"
    by (rule s1_decline [OF sigma_gamma_positive]) simp_all
qed

subsection \<open>The run\<close>

lemma trunc_abs_le: "\<bar>of_int (trunc v) :: real\<bar> \<le> \<bar>v\<bar>"
  unfolding trunc_def by (simp; linarith)

lemma int64_store_returns:
  assumes "\<bar>v\<bar> < 2 ^ 63"
  shows "int64_store v = Inr (trunc v)"
proof -
  from assms trunc_abs_le [of v] have "\<bar>of_int (trunc v) :: real\<bar> < 2 ^ 63"
    by linarith
  then have "(of_int (trunc v) :: real) < of_int (2 ^ 63)"
      and "(of_int (- (2 ^ 63)) :: real) < of_int (trunc v)"
    by simp_all
  then have "trunc v < 2 ^ 63" and "- (2 ^ 63) < trunc v"
    by (simp_all only: of_int_less_iff)
  then show ?thesis
    by (simp add: int64_store_def Let_def)
qed

lemma death_loop_returns:
  assumes "\<forall>i \<in> set ixs. i < length U \<and> i < length R \<and> \<bar>R ! i\<bar> \<le> B"
    and "\<bar>RPrev\<bar> \<le> B"
    and "\<bar>a\<bar> \<le> c" "\<bar>b\<bar> \<le> c"
    and "\<bar>of_int DPrev\<bar> + of_nat (length ixs) * (c * (2 * B)) < 2 ^ 63"
  shows "\<exists>D. death_loop a b icu U R ixs RPrev DPrev = Inr D"
  using assms
proof (induction ixs arbitrary: RPrev DPrev)
  case Nil
  then show ?case by simp
next
  case (Cons i rest)
  let ?IFR = "if U ! i \<le> of_int icu then a else b"
  let ?v = "of_int DPrev + ?IFR * (R ! i - RPrev)"
  from Cons.prems(1) have i: "i < length U" "i < length R" "\<bar>R ! i\<bar> \<le> B"
    by simp_all
  from Cons.prems(3,4) have ifr: "\<bar>?IFR\<bar> \<le> c"
    by simp
  have c0: "0 \<le> c"
    using Cons.prems(3) by linarith
  have B0: "0 \<le> B"
    using Cons.prems(2) by linarith
  have "\<bar>R ! i - RPrev\<bar> \<le> 2 * B"
    using i(3) Cons.prems(2) by linarith
  with ifr have "\<bar>?IFR\<bar> * \<bar>R ! i - RPrev\<bar> \<le> c * (2 * B)"
    by (intro mult_mono) (use c0 in simp_all)
  then have inc: "\<bar>?IFR * (R ! i - RPrev)\<bar> \<le> c * (2 * B)"
    by (simp only: abs_mult)
  then have v: "\<bar>?v\<bar> \<le> \<bar>of_int DPrev\<bar> + c * (2 * B)"
    by linarith
  have budget: "\<bar>of_int DPrev\<bar> + c * (2 * B) + of_nat (length rest) * (c * (2 * B)) < 2 ^ 63"
    using Cons.prems(5) by (simp add: algebra_simps)
  have rest0: "0 \<le> of_nat (length rest) * (c * (2 * B))"
    using c0 B0 by simp
  from v budget rest0 have "\<bar>?v\<bar> < 2 ^ 63"
    by linarith
  then have store: "int64_store ?v = Inr (trunc ?v)"
    by (rule int64_store_returns)
  have "\<bar>of_int (trunc ?v) :: real\<bar> + of_nat (length rest) * (c * (2 * B)) < 2 ^ 63"
    using trunc_abs_le [of ?v] v budget by linarith
  with Cons.IH [of "R ! i" "trunc ?v"] Cons.prems(1,3,4) i(3)
  obtain ds where "death_loop a b icu U R rest (R ! i) (trunc ?v) = Inr ds"
    by auto
  with store i show ?case
    by (simp add: Let_def)
qed

lemma s1_constants: "\<exists>growth. s1 sigma gamma r0 = Inr growth"
  using s1_growth [OF sigma_gamma_positive, of r0] by (auto simp: r0_def)

lemma solve_columns:
  "solve ig func population e b0 d b1 g s n =
     ([0 ..< n],
      map (\<lambda>(s, e, i, r). s) (odeint ig (\<lambda>Y x. func Y x population b0 d b1 g s)
                           (of_int (population - e), of_int e, 0, 0) (map of_nat [0 ..< n])),
      map (\<lambda>(s, e, i, r). e) (odeint ig (\<lambda>Y x. func Y x population b0 d b1 g s)
                           (of_int (population - e), of_int e, 0, 0) (map of_nat [0 ..< n])),
      map (\<lambda>(s, e, i, r). i) (odeint ig (\<lambda>Y x. func Y x population b0 d b1 g s)
                           (of_int (population - e), of_int e, 0, 0) (map of_nat [0 ..< n])),
      map (\<lambda>(s, e, i, r). r) (odeint ig (\<lambda>Y x. func Y x population b0 d b1 g s)
                           (of_int (population - e), of_int e, 0, 0) (map of_nat [0 ..< n])))"
  by (simp add: solve_def Let_def)

lemma length_odeint: "length (odeint ig func y0 ts) = length ts"
  by (simp add: odeint_def)

lemma solve_lengths:
  assumes "solve ig func population e b0 d b1 g s n = (X, S, E, I, R)"
  shows "X = [0 ..< n]" "length S = n" "length E = n" "length I = n" "length R = n"
  using assms unfolding solve_columns by (auto simp: length_odeint)

lemma fatality_rates: "\<bar>infectionFatalityRateA\<bar> \<le> 3 / 100" "\<bar>infectionFatalityRateB\<bar> \<le> 3 / 100"
  by (simp_all add: infectionFatalityRateA_def infectionFatalityRateB_def)

lemma estimate_deaths_returns:
  assumes "length X = daysTotal" "length U = daysTotal" "length R = daysTotal"
    and "list_all (\<lambda>r. \<bar>r\<bar> \<le> 2 ^ 58) R"
  shows "\<exists>D. estimate_deaths infectionFatalityRateA infectionFatalityRateB icu U R X = Inr D
             \<and> length D = daysTotal"
proof -
  have cells: "\<forall>i \<in> set [0 ..< length X]. i < length U \<and> i < length R \<and> \<bar>R ! i\<bar> \<le> 2 ^ 58"
    using assms by (simp add: list_all_length)
  have budget: "\<bar>of_int 0 :: real\<bar> + of_nat (length [0 ..< length X]) * (3 / 100 * (2 * 2 ^ 58)) < 2 ^ 63"
    using assms(1) by (simp add: daysTotal_def)
  have "\<bar>0 :: real\<bar> \<le> 2 ^ 58"
    by simp
  from death_loop_returns [OF cells this fatality_rates budget]
  obtain D where D: "death_loop infectionFatalityRateA infectionFatalityRateB icu U R
                       [0 ..< length X] 0 0 = Inr D"
    by blast
  then have "length D = daysTotal"
    using assms(1) by (simp add: death_loop_length)
  with D show ?thesis
    by (simp add: estimate_deaths_def)
qed

lemma dates_in_range:
  assumes "1 \<le> d_first" "d_first + 364 \<le> date_max"
  shows "list_all (\<lambda>x. date_in_range (d_first + int x)) [0 ..< daysTotal]"
  using assms by (auto simp: list_all_iff date_in_range_def daysTotal_def)

lemma line_plot_data_returns:
  assumes "length S = length X" "length E = length X" "length I = length X"
    "length R = length X" "length D = length X"
    and "list_all (\<lambda>x. date_in_range (d_first + int x)) X"
  shows "line_plot_data d_first X S E I R D =
           Inr (melt (map (\<lambda>x. d_first + int x) X)
                  [(susceptible, map py_round S), (exposed, map py_round E),
                   (infectious, map py_round I), (recovered, map py_round R),
                   (deaths, map py_round D)])"
  using assms by (simp add: line_plot_data_def)

lemma line_plot_data_Inr:
  assumes "line_plot_data d_first X S E I R D = Inr rows"
  shows "length D = length X \<and>
         rows = melt (map (\<lambda>x. d_first + int x) X)
                  [(susceptible, map py_round S), (exposed, map py_round E),
                   (infectious, map py_round I), (recovered, map py_round R),
                   (deaths, map py_round D)]"
  using assms by (auto simp: line_plot_data_def split: if_splits)

text \<open>The run, unfolded: which call of the integrator the table comes from.\<close>

lemma run_SEIR_Inr:
  assumes "run_SEIR ig population icu d_first d_lock = Inr rows"
  shows "population \<noteq> 0 \<and>
    (\<exists>D. length D = daysTotal \<and>
      rows = melt (map (\<lambda>x. d_first + int x) [0 ..< daysTotal])
        (case solve ig model population E0 beta0 (d_lock - d_first) beta1 gamma sigma daysTotal of
           (X, S, E, I, R) \<Rightarrow>
             [(susceptible, map py_round S), (exposed, map py_round E),
              (infectious, map py_round I), (recovered, map py_round R),
              (deaths, D)]))"
proof -
  obtain X S E I R where
    sol: "solve ig model population E0 beta0 (d_lock - d_first) beta1 gamma sigma daysTotal = (X, S, E, I, R)"
    by (metis prod_cases5)
  note len = solve_lengths [OF sol]
  from assms sol obtain D where
    pop: "population \<noteq> 0" and
    tab: "line_plot_data d_first X S E I R D = Inr rows"
    by (auto simp: run_SEIR_def Let_def split: sum.splits if_splits)
  from line_plot_data_Inr [OF tab] len(1) have
    "length (map py_round D) = daysTotal" and
    "rows = melt (map (\<lambda>x. d_first + int x) [0 ..< daysTotal])
              [(susceptible, map py_round S), (exposed, map py_round E),
               (infectious, map py_round I), (recovered, map py_round R),
               (deaths, map py_round D)]"
    by simp_all
  with pop sol show ?thesis
    by (auto intro!: exI [of _ "map py_round D"])
qed

lemma melt_keys:
  assumes "list_all (\<lambda>(name, vals). length vals = length dates) cols"
  shows "map (\<lambda>r. (type r, date r)) (melt dates cols)
           = concat (map (\<lambda>(name, vals). map (\<lambda>d. (name, d)) dates) cols)"
  using assms
proof (induction cols)
  case Nil
  then show ?case by (simp add: melt_def)
next
  case (Cons col cols)
  obtain name vals where col: "col = (name, vals)"
    by (cases col)
  with Cons.prems have len: "length vals = length dates"
    by simp
  have "map (\<lambda>r. (type r, date r)) (map (\<lambda>(d, v). \<lparr>date = d, type = name, count = v\<rparr>) (zip dates vals))
          = map (\<lambda>d. (name, d)) (map fst (zip dates vals))"
    by (simp add: case_prod_unfold)
  also have "\<dots> = map (\<lambda>d. (name, d)) dates"
    using len by simp
  finally show ?case
    using Cons col by (simp add: melt_def)
qed

lemma run_SEIR_keys:
  assumes "run_SEIR ig population icu d_first d_lock = Inr rows"
  shows "map (\<lambda>r. (type r, date r)) rows
           = concat (map (\<lambda>name. map (\<lambda>x. (name, d_first + int x)) [0 ..< daysTotal])
                       [susceptible, exposed, infectious, recovered, deaths])"
proof -
  obtain X S E I R where
    sol: "solve ig model population E0 beta0 (d_lock - d_first) beta1 gamma sigma daysTotal = (X, S, E, I, R)"
    by (metis prod_cases5)
  note len = solve_lengths [OF sol]
  from run_SEIR_Inr [OF assms] sol obtain D where
    D: "length D = daysTotal" and
    rows: "rows = melt (map (\<lambda>x. d_first + int x) [0 ..< daysTotal])
             [(susceptible, map py_round S), (exposed, map py_round E),
              (infectious, map py_round I), (recovered, map py_round R), (deaths, D)]"
    by auto
  show ?thesis
    unfolding rows by (subst melt_keys) (simp_all add: len D comp_def)
qed




text \<open>
  The run, from the call of the integrator to the table, for a population that is not zero,
  Recovered values in range and a first date that leaves room for the 365 days.
\<close>

lemma run_SEIR_table:
  assumes pop: "population \<noteq> 0"
    and rng: "recovered_in_range ig population d_first d_lock"
    and dates: "1 \<le> d_first" "d_first + 364 \<le> date_max"
    and sol: "solve ig model population E0 beta0 (d_lock - d_first) beta1 gamma sigma daysTotal
                = (X, S, E, I, R)"
    and U: "U = delay (delay (map (\<lambda>v. v * icuRate * timeInHospital / timeInfected) I)
                         (days_presymptomatic + symptomToHospitalLag + hospitalToIcuLag))
                      (of_int (py_round ((timeInHospital / timeInfected - 1) * timeInfected)))"
  shows "\<exists>D. estimate_deaths infectionFatalityRateA infectionFatalityRateB icu U R X = Inr D \<and>
             length D = daysTotal \<and>
             run_SEIR ig population icu d_first d_lock =
               Inr (melt (map (\<lambda>x. d_first + int x) X)
                      [(susceptible, map py_round S), (exposed, map py_round E),
                       (infectious, map py_round I), (recovered, map py_round R),
                       (deaths, map py_round (delay (map of_int D)
                          (- timeInfected + days_presymptomatic + symptomToHospitalLag
                             + timeInHospital + communicationLag)))])"
proof -
  note len = solve_lengths [OF sol]
  obtain growth where growth: "s1 sigma gamma r0 = Inr growth"
    using s1_constants by blast
  have lenU: "length U = daysTotal"
    by (simp add: U length_delay len)
  have lenX: "length X = daysTotal"
    by (simp add: len)
  from rng sol have "list_all (\<lambda>r. \<bar>r\<bar> \<le> 2 ^ 58) R"
    by (simp add: recovered_in_range_def)
  from estimate_deaths_returns [OF lenX lenU len(5) this]
  obtain D where D: "estimate_deaths infectionFatalityRateA infectionFatalityRateB icu U R X = Inr D"
    and lenD: "length D = daysTotal"
    by blast
  have days: "list_all (\<lambda>x. date_in_range (d_first + int x)) X"
    unfolding len(1) using dates by (rule dates_in_range)
  have tab: "line_plot_data d_first X S E I R (delay (map of_int D) shift) =
           Inr (melt (map (\<lambda>x. d_first + int x) X)
                  [(susceptible, map py_round S), (exposed, map py_round E),
                   (infectious, map py_round I), (recovered, map py_round R),
                   (deaths, map py_round (delay (map of_int D) shift))])" for shift
    using len lenX lenD days by (intro line_plot_data_returns) (simp_all add: length_delay)
  have "run_SEIR ig population icu d_first d_lock =
          Inr (melt (map (\<lambda>x. d_first + int x) X)
                 [(susceptible, map py_round S), (exposed, map py_round E),
                  (infectious, map py_round I), (recovered, map py_round R),
                  (deaths, map py_round (delay (map of_int D)
                     (- timeInfected + days_presymptomatic + symptomToHospitalLag
                        + timeInHospital + communicationLag)))])"
    using pop growth sol D tab
    by (simp add: run_SEIR_def Let_def U [symmetric])
  with D lenD show ?thesis
    by blast
qed

subsection \<open>Integrators that move forward\<close>

lemma odeint_forward_only:
  assumes "forward_only ig" and "\<forall>Y x. 0 \<le> x \<longrightarrow> f Y x = g Y x"
  shows "odeint ig f y0 (map of_nat ks) = odeint ig g y0 (map of_nat ks)"
proof -
  have "ig f y0 (of_nat k) = ig g y0 (of_nat k)" for k :: nat
    using assms unfolding forward_only_def by (metis of_nat_0_le_iff)
  then show ?thesis
    by (simp add: odeint_def)
qed

lemma forward_only_midpoint_step: "forward_only midpoint_step"
  unfolding forward_only_def
proof (intro allI impI, elim conjE)
  fix f g :: rhs and y0 :: state and t :: real
  assume t: "0 \<le> t" and same: "\<forall>Y x. 0 \<le> x \<longrightarrow> f Y x = g Y x"
  have "0 \<le> (0::real)" and "0 \<le> t / 2"
    using t by simp_all
  with same have "f Y 0 = g Y 0" and "f Y (t / 2) = g Y (t / 2)" for Y
    by blast+
  then show "midpoint_step f y0 t = midpoint_step g y0 t"
    by (simp add: midpoint_step_def split: option.splits)
qed

text \<open>The Recovered value the midpoint step reports in a run, and its size.\<close>

lemma midpoint_step_recovered:
  "(case midpoint_step (\<lambda>Y x. model Y x population b0 d b1 g s) (S0, e, 0, 0) t of
      (S, E, I, R) \<Rightarrow> R)
     = (if population = 0 then 0 else t * (g * (t / 2 * (s * e))))"
  by (simp add: midpoint_step_def advance_def model_def Let_def)

lemma midpoint_step_in_range: "recovered_in_range midpoint_step population d_first d_lock"
proof -
  have bound: "\<bar>real k * (gamma * (real k / 2 * (sigma * of_int E0)))\<bar> \<le> 2 ^ 58"
    if "k < daysTotal" for k
  proof -
    from that have "real k \<le> 364"
      by (simp add: daysTotal_def)
    then have "real k * real k \<le> 364 * 364"
      by (intro mult_mono) simp_all
    then show ?thesis
      by (simp add: gamma_value sigma_value E0_def abs_mult)
  qed
  have "\<bar>r\<bar> \<le> 2 ^ 58"
    if "r \<in> set (map (\<lambda>x. if population = 0 then 0
                               else real x * (gamma * (real x / 2 * (sigma * of_int E0))))
                     [0 ..< daysTotal])" for r
  proof -
    from that have "\<exists>k \<in> set [0 ..< daysTotal].
        r = (if population = 0 then 0 else real k * (gamma * (real k / 2 * (sigma * of_int E0))))"
      by (simp only: set_map image_iff)
    then obtain k where k: "k \<in> set [0 ..< daysTotal]"
      and r: "r = (if population = 0 then 0
                   else real k * (gamma * (real k / 2 * (sigma * of_int E0))))"
      by blast
    from k have "k < daysTotal"
      by simp
    from bound [OF this] show ?thesis
      unfolding r by (cases "population = 0") simp_all
  qed
  then show ?thesis
    unfolding recovered_in_range_def solve_columns prod.case odeint_def map_map comp_def
      midpoint_step_recovered list_all_iff
    by blast
qed

lemma melt_first_column:
  assumes "i < length dates" "length vals = length dates"
  shows "melt dates ((name, vals) # cols) ! i = \<lparr>date = dates ! i, type = name, count = vals ! i\<rparr>"
  using assms by (simp add: melt_def nth_append)

subsection \<open>Single cells of a delayed series\<close>








subsection \<open>Lockdown before the first infection\<close>

text \<open>
  Claim C6. When the lockdown date is on or before the first-infection date, the switch day
  \<open>run_SEIR\<close> derives (line 60) is at most zero. The right-hand side the run hands to the
  integrator then is, at every time \<open>x \<ge> 0\<close>, the derivative with \<open>beta1\<close>, and \<open>beta0\<close>
  does not occur in it; an integrator that moves forward from time \<open>0\<close> therefore reports
  the trajectories of the model with \<open>beta1\<close> alone. The run is accepted: for a positive
  population, Recovered values in range and a first date that leaves room for the 365 days,
  it returns the table built from these trajectories.
\<close>

theorem lockdown_before_first_infection:
  assumes "date_of_lockdown \<le> date_of_first_infection"
  shows
    "let days_before_lockdown = date_of_lockdown - date_of_first_infection;
         func = (\<lambda>Y x. model Y x population beta0 days_before_lockdown beta1 gamma sigma);
         post = (\<lambda>Y x. case Y of (S, E, I, R) \<Rightarrow>
                   if population = 0 then None
                   else Some (spec_derivative beta1 sigma gamma (of_int population) S E I R));
         N0 = (of_int (population - E0), of_int E0, 0, 0);
         Y = odeint ig func N0 (map of_nat [0 ..< daysTotal])
     in days_before_lockdown \<le> 0 \<and>
        (\<forall>Y x. 0 \<le> x \<longrightarrow> func Y x = post Y x) \<and>
        (forward_only ig \<longrightarrow> Y = odeint ig post N0 (map of_nat [0 ..< daysTotal])) \<and>
        (0 < population \<and>
         recovered_in_range ig population date_of_first_infection date_of_lockdown \<and>
         1 \<le> date_of_first_infection \<and> date_of_first_infection + 364 \<le> date_max \<longrightarrow>
           (\<exists>D. length D = daysTotal \<and>
              run_SEIR ig population intensive_units date_of_first_infection date_of_lockdown =
                Inr (melt (map (\<lambda>x. date_of_first_infection + int x) [0 ..< daysTotal])
                       [(susceptible, map py_round (map (\<lambda>(s, e, i, r). s) Y)),
                        (exposed, map py_round (map (\<lambda>(s, e, i, r). e) Y)),
                        (infectious, map py_round (map (\<lambda>(s, e, i, r). i) Y)),
                        (recovered, map py_round (map (\<lambda>(s, e, i, r). r) Y)),
                        (deaths, D)])))"
proof -
  define d where "d = date_of_lockdown - date_of_first_infection"
  define func where "func = (\<lambda>Y x. model Y x population beta0 d beta1 gamma sigma)"
  define post :: rhs where "post = (\<lambda>Y x. case Y of (S, E, I, R) \<Rightarrow>
                   if population = 0 then None
                   else Some (spec_derivative beta1 sigma gamma (of_int population) S E I R))"
  define N0 :: state where "N0 = (of_int (population - E0), of_int E0, 0, 0)"
  define Y where "Y = odeint ig func N0 (map of_nat [0 ..< daysTotal])"
  from assms have d: "d \<le> 0"
    by (simp add: d_def)
  have late: "\<not> x < of_int d" if "0 \<le> x" for x :: real
  proof -
    from d have "(of_int d :: real) \<le> 0"
      by (simp only: of_int_le_0_iff)
    with that show ?thesis
      by linarith
  qed
  have same: "\<forall>Y x. 0 \<le> x \<longrightarrow> func Y x = post Y x"
    using late by (auto simp: func_def post_def model_def spec_derivative_def)
  have fwd: "forward_only ig \<longrightarrow> Y = odeint ig post N0 (map of_nat [0 ..< daysTotal])"
    unfolding Y_def using same by (blast intro: odeint_forward_only)
  have run: "\<exists>D. length D = daysTotal \<and>
       run_SEIR ig population intensive_units date_of_first_infection date_of_lockdown =
         Inr (melt (map (\<lambda>x. date_of_first_infection + int x) [0 ..< daysTotal])
                [(susceptible, map py_round (map (\<lambda>(s, e, i, r). s) Y)),
                 (exposed, map py_round (map (\<lambda>(s, e, i, r). e) Y)),
                 (infectious, map py_round (map (\<lambda>(s, e, i, r). i) Y)),
                 (recovered, map py_round (map (\<lambda>(s, e, i, r). r) Y)),
                 (deaths, D)])"
    if pop: "0 < population"
      and rng: "recovered_in_range ig population date_of_first_infection date_of_lockdown"
      and dates: "1 \<le> date_of_first_infection" "date_of_first_infection + 364 \<le> date_max"
  proof -
    from pop have nz: "population \<noteq> 0"
      by simp
    have sol: "solve ig model population E0 beta0 (date_of_lockdown - date_of_first_infection)
                 beta1 gamma sigma daysTotal
               = ([0 ..< daysTotal], map (\<lambda>(s, e, i, r). s) Y, map (\<lambda>(s, e, i, r). e) Y,
                  map (\<lambda>(s, e, i, r). i) Y, map (\<lambda>(s, e, i, r). r) Y)"
      by (simp only: solve_columns Y_def func_def N0_def d_def)
    from run_SEIR_table [OF nz rng dates sol refl, of intensive_units]
    obtain D0 where "length D0 = daysTotal"
      and "run_SEIR ig population intensive_units date_of_first_infection date_of_lockdown =
         Inr (melt (map (\<lambda>x. date_of_first_infection + int x) [0 ..< daysTotal])
                [(susceptible, map py_round (map (\<lambda>(s, e, i, r). s) Y)),
                 (exposed, map py_round (map (\<lambda>(s, e, i, r). e) Y)),
                 (infectious, map py_round (map (\<lambda>(s, e, i, r). i) Y)),
                 (recovered, map py_round (map (\<lambda>(s, e, i, r). r) Y)),
                 (deaths, map py_round (delay (map of_int D0)
                    (- timeInfected + days_presymptomatic + symptomToHospitalLag
                       + timeInHospital + communicationLag)))])"
      by blast
    then show ?thesis
      by (intro exI [of _ "map py_round (delay (map of_int D0)
                    (- timeInfected + days_presymptomatic + symptomToHospitalLag
                       + timeInHospital + communicationLag))"])
         (simp add: length_delay)
  qed
  from d same fwd run show ?thesis
    unfolding Let_def d_def func_def post_def N0_def Y_def by blast
qed

theorem lockdown_before_first_infection_witness:
  "(737480::int) \<le> 737485 \<and> forward_only midpoint_step \<and>
   recovered_in_range midpoint_step 1000 737485 737480 \<and>
   (1::int) \<le> 737485 \<and> (737485::int) + 364 \<le> date_max \<and>
   model (900, 50, 40, 10) 3 1000 beta0 (737480 - 737485) beta1 gamma sigma
     = Some (- (198 / 19), - (4154 / 513), 4100 / 513, 200 / 19) \<and>
   \<not> isl (run_SEIR midpoint_step 1000 10 737485 737480) \<and>
   projr (run_SEIR midpoint_step 1000 10 737485 737480) ! 10
     = \<lparr>date = 737495, type = susceptible, count = 994\<rparr>"
proof -
  have le: "(737480::int) \<le> 737485"
    by simp
  have dates: "(1::int) \<le> 737485" "(737485::int) + 364 \<le> date_max"
    by (simp_all add: date_max_def)
  have rng: "recovered_in_range midpoint_step 1000 737485 737480"
    by (rule midpoint_step_in_range)
  define func :: rhs where
    "func = (\<lambda>Y x. model Y x 1000 beta0 (737480 - 737485) beta1 gamma sigma)"
  define Y where "Y = odeint midpoint_step func (of_int (1000 - E0), of_int E0, 0, 0)
                        (map of_nat [0 ..< daysTotal])"
  note inst = lockdown_before_first_infection
    [OF le, where population = 1000 and ig = midpoint_step and intensive_units = 10,
     unfolded Let_def, folded func_def, folded Y_def]
  from inst have "0 \<le> (3::real) \<longrightarrow> func (900, 50, 40, 10) 3
      = Some (spec_derivative beta1 sigma gamma (of_int 1000) 900 50 40 10)"
    by (simp add: func_def)
  then have point: "model (900, 50, 40, 10) 3 1000 beta0 (737480 - 737485) beta1 gamma sigma
     = Some (- (198 / 19), - (4154 / 513), 4100 / 513, 200 / 19)"
    by (simp add: func_def spec_derivative_def beta1_def r1_def gamma_value sigma_value)
  from inst rng dates obtain D where D: "length D = daysTotal"
    and run: "run_SEIR midpoint_step 1000 10 737485 737480 =
       Inr (melt (map (\<lambda>x. 737485 + int x) [0 ..< daysTotal])
              [(susceptible, map py_round (map (\<lambda>(s, e, i, r). s) Y)),
               (exposed, map py_round (map (\<lambda>(s, e, i, r). e) Y)),
               (infectious, map py_round (map (\<lambda>(s, e, i, r). i) Y)),
               (recovered, map py_round (map (\<lambda>(s, e, i, r). r) Y)),
               (deaths, D)])"
    by auto
  have ten: "10 < daysTotal"
    by (simp add: daysTotal_def)
  have cell: "map py_round (map (\<lambda>(s, e, i, r). s) Y) ! 10 = 994"
    using ten
    by (simp add: Y_def odeint_def func_def midpoint_step_def advance_def model_def E0_def
          beta1_def r1_def gamma_value sigma_value py_round_def Let_def)
  have "melt (map (\<lambda>x. 737485 + int x) [0 ..< daysTotal])
          ((susceptible, map py_round (map (\<lambda>(s, e, i, r). s) Y)) #
           [(exposed, map py_round (map (\<lambda>(s, e, i, r). e) Y)),
            (infectious, map py_round (map (\<lambda>(s, e, i, r). i) Y)),
            (recovered, map py_round (map (\<lambda>(s, e, i, r). r) Y)),
            (deaths, D)]) ! 10
        = \<lparr>date = map (\<lambda>x. 737485 + int x) [0 ..< daysTotal] ! 10, type = susceptible,
           count = map py_round (map (\<lambda>(s, e, i, r). s) Y) ! 10\<rparr>"
    using ten by (intro melt_first_column) (simp_all add: Y_def length_odeint)
  with ten cell run have row: "projr (run_SEIR midpoint_step 1000 10 737485 737480) ! 10
     = \<lparr>date = 737495, type = susceptible, count = 994\<rparr>"
    by simp
  from run have "\<not> isl (run_SEIR midpoint_step 1000 10 737485 737480)"
    by simp
  with le forward_only_midpoint_step rng dates point row show ?thesis
    by blast
qed

subsection \<open>A run without validation\<close>




subsection \<open>The fixed horizon\<close>

text \<open>
  Claim C10. Whatever the caller passes, a run that returns has integrated over the 365 day
  indices \<open>0 .. 364\<close> from the state \<open>(population - 1, 1, 0, 0)\<close> (one exposed person) with
  \<open>beta0 = 3.0 * gamma\<close> and \<open>beta1 = 1.1 * gamma\<close>, and its table holds, for each of
  susceptible, exposed, infectious, recovered and deaths in this order, one row for each of
  the 365 consecutive dates from the first-infection date on.
\<close>

theorem run_SEIR_fixed_horizon:
  assumes "run_SEIR ig population intensive_units date_of_first_infection date_of_lockdown
             = Inr rows"
  shows
    "(\<exists>D. length D = 365 \<and>
        rows = melt (map (\<lambda>x. date_of_first_infection + int x) [0 ..< 365])
          (let Y = odeint ig
                     (\<lambda>Y x. model Y x population (3.0 * gamma)
                               (date_of_lockdown - date_of_first_infection) (1.1 * gamma)
                               gamma sigma)
                     (of_int (population - 1), 1, 0, 0) (map of_nat [0 ..< 365])
           in [(susceptible, map py_round (map (\<lambda>(s, e, i, r). s) Y)),
               (exposed, map py_round (map (\<lambda>(s, e, i, r). e) Y)),
               (infectious, map py_round (map (\<lambda>(s, e, i, r). i) Y)),
               (recovered, map py_round (map (\<lambda>(s, e, i, r). r) Y)),
               (deaths, D)])) \<and>
     map (\<lambda>r. (type r, date r)) rows
       = concat (map (\<lambda>name. map (\<lambda>x. (name, date_of_first_infection + int x)) [0 ..< 365])
                   [susceptible, exposed, infectious, recovered, deaths])"
proof -
  have fixed: "daysTotal = 365" "E0 = 1" "beta0 = 3.0 * gamma" "beta1 = 1.1 * gamma"
    by (simp_all add: daysTotal_def E0_def beta0_def beta1_def r0_def r1_def)
  from run_SEIR_Inr [OF assms] have
    "\<exists>D. length D = daysTotal \<and>
      rows = melt (map (\<lambda>x. date_of_first_infection + int x) [0 ..< daysTotal])
        (case solve ig model population E0 beta0 (date_of_lockdown - date_of_first_infection)
                beta1 gamma sigma daysTotal of
           (X, S, E, I, R) \<Rightarrow>
             [(susceptible, map py_round S), (exposed, map py_round E),
              (infectious, map py_round I), (recovered, map py_round R),
              (deaths, D)])"
    by blast
  then have first: "\<exists>D. length D = 365 \<and>
        rows = melt (map (\<lambda>x. date_of_first_infection + int x) [0 ..< 365])
          (let Y = odeint ig
                     (\<lambda>Y x. model Y x population (3.0 * gamma)
                               (date_of_lockdown - date_of_first_infection) (1.1 * gamma)
                               gamma sigma)
                     (of_int (population - 1), 1, 0, 0) (map of_nat [0 ..< 365])
           in [(susceptible, map py_round (map (\<lambda>(s, e, i, r). s) Y)),
               (exposed, map py_round (map (\<lambda>(s, e, i, r). e) Y)),
               (infectious, map py_round (map (\<lambda>(s, e, i, r). i) Y)),
               (recovered, map py_round (map (\<lambda>(s, e, i, r). r) Y)),
               (deaths, D)])"
    unfolding solve_columns fixed Let_def by simp
  from run_SEIR_keys [OF assms] have second:
    "map (\<lambda>r. (type r, date r)) rows
       = concat (map (\<lambda>name. map (\<lambda>x. (name, date_of_first_infection + int x)) [0 ..< 365])
                   [susceptible, exposed, infectious, recovered, deaths])"
    unfolding fixed .
  from first second show ?thesis
    by (rule conjI)
qed

theorem run_SEIR_fixed_horizon_witness:
  "run_SEIR midpoint_step 1000 10 737485 737505
     = Inr (projr (run_SEIR midpoint_step 1000 10 737485 737505)) \<and>
   map (\<lambda>r. (type r, date r)) (projr (run_SEIR midpoint_step 1000 10 737485 737505))
     = concat (map (\<lambda>name. map (\<lambda>x. (name, 737485 + int x)) [0 ..< 365])
                 [susceptible, exposed, infectious, recovered, deaths])"
proof -
  have pop: "(1000::int) \<noteq> 0"
    by simp
  have dates: "(1::int) \<le> 737485" "(737485::int) + 364 \<le> date_max"
    by (simp_all add: date_max_def)
  obtain X S E I R where sol: "solve midpoint_step model 1000 E0 beta0 (737505 - 737485) beta1
      gamma sigma daysTotal = (X, S, E, I, R)"
    by (metis prod_cases5)
  from run_SEIR_table [OF pop midpoint_step_in_range dates sol refl, of 10]
  have run: "run_SEIR midpoint_step 1000 10 737485 737505
               = Inr (projr (run_SEIR midpoint_step 1000 10 737485 737505))"
    by auto
  from run_SEIR_fixed_horizon [OF run] run show ?thesis
    by blast
qed

end
